theory Spec2Isabelle
  imports Complex_Main
begin

section \<open>Python values, errors and dictionaries\<close>

text \<open>
  The two MultiQC plugin modules \<^verbatim>\<open>sample_gender.py\<close> and \<^verbatim>\<open>targeted_MSH2.py\<close> work on
  text, on dictionaries from field names to values, and on a few numbers. Strings are
  character lists (a character is a code point below 256), a dictionary is an association
  list in insertion order with one entry per key, and an exception is a value of the
  error type on the left of a sum.

  A Python float is an IEEE double: a rational number with a significand of 53 bits (the
  positive zero among them), the negative zero, the two infinities or not-a-number. The
  operations on floats below round their exact result to the nearest double, a tie to the
  even significand.
\<close>

datatype py_error = IndexError | KeyError | ValueError | ZeroDivisionError | OverflowError

datatype pyfloat = Finite rat | NegZero | PosInf | NegInf | NaN

datatype pyval = PInt int | PFloat pyfloat | PStr string

type_synonym pydict = "(string \<times> pyval) list"

text \<open>\<^verbatim>\<open>d.get(k)\<close>: the value stored under the key, or nothing.\<close>

definition dict_get :: "('k \<times> 'v) list \<Rightarrow> 'k \<Rightarrow> 'v option" where
  "dict_get d k = map_of d k"

text \<open>\<^verbatim>\<open>d[k]\<close> as an expression: a missing key raises \<^verbatim>\<open>KeyError\<close>.\<close>

definition dict_index :: "('k \<times> 'v) list \<Rightarrow> 'k \<Rightarrow> py_error + 'v" where
  "dict_index d k = (case dict_get d k of None \<Rightarrow> Inl KeyError | Some v \<Rightarrow> Inr v)"

text \<open>
  \<^verbatim>\<open>d[k] = v\<close>: an existing key keeps its place and gets the new value, a new key goes
  to the end.
\<close>

fun dict_set :: "('k \<times> 'v) list \<Rightarrow> 'k \<Rightarrow> 'v \<Rightarrow> ('k \<times> 'v) list" where
  "dict_set [] k v = [(k, v)]"
| "dict_set ((k', v') # d) k v =
     (if k' = k then (k, v) # d else (k', v') # dict_set d k v)"

text \<open>\<^verbatim>\<open>xs[i]\<close> on a list: an index past the end raises \<^verbatim>\<open>IndexError\<close>.\<close>

definition list_index :: "'a list \<Rightarrow> nat \<Rightarrow> py_error + 'a" where
  "list_index xs i = (if i < length xs then Inr (xs ! i) else Inl IndexError)"

text \<open>Sequencing of computations that may raise: the first error stops the rest.\<close>

definition bind_err :: "py_error + 'a \<Rightarrow> ('a \<Rightarrow> py_error + 'b) \<Rightarrow> py_error + 'b" where
  "bind_err r f = (case r of Inl e \<Rightarrow> Inl e | Inr x \<Rightarrow> f x)"

section \<open>Python strings\<close>

text \<open>
  \<^verbatim>\<open>str.strip()\<close> removes the characters for which \<^verbatim>\<open>str.isspace()\<close> holds from both
  ends; below code point 256 these are 9 to 13, 28 to 32, 133 and 160.
\<close>

definition str_isspace :: "char \<Rightarrow> bool" where
  "str_isspace c = (of_char c \<in> {9, 10, 11, 12, 13, 28, 29, 30, 31, 32, 133, 160 :: nat})"

definition strip :: "string \<Rightarrow> string" where
  "strip s = rev (dropWhile str_isspace (rev (dropWhile str_isspace s)))"

text \<open>
  \<^verbatim>\<open>str.splitlines()\<close>: a line ends at a line boundary (code points 10 to 13, 28 to 30
  and 133; a carriage return followed by a line feed is one boundary), the boundaries are
  dropped, and text after the last boundary is a line when it is not empty.
\<close>

definition is_linebreak :: "char \<Rightarrow> bool" where
  "is_linebreak c = (of_char c \<in> {10, 11, 12, 13, 28, 29, 30, 133 :: nat})"

fun splitlines_from :: "string \<Rightarrow> string \<Rightarrow> string list" where
  "splitlines_from cur [] = (if cur = [] then [] else [cur])"
| "splitlines_from cur [c] = (if is_linebreak c then [cur] else [cur @ [c]])"
| "splitlines_from cur (c # d # s) =
     (if c = CHR 0x0D \<and> d = CHR 0x0A then cur # splitlines_from [] s
      else if is_linebreak c then cur # splitlines_from [] (d # s)
      else splitlines_from (cur @ [c]) (d # s))"

definition splitlines :: "string \<Rightarrow> string list" where
  "splitlines f = splitlines_from [] f"

text \<open>
  \<^verbatim>\<open>s.split(sep)\<close> for a separator of one character: every occurrence of the separator
  ends a field, so the result has one field more than the text has separators.
\<close>

fun split_on :: "char \<Rightarrow> string \<Rightarrow> string list" where
  "split_on sep [] = [[]]"
| "split_on sep (c # s) =
     (let r = split_on sep s in if c = sep then [] # r else (c # hd r) # tl r)"

text \<open>The slice \<^verbatim>\<open>xs[1:6]\<close>: the elements at the indices 1 to 5 that exist.\<close>

definition slice_1_6 :: "'a list \<Rightarrow> 'a list" where
  "slice_1_6 xs = take 5 (drop 1 xs)"

text \<open>
  \<^verbatim>\<open>str.lower()\<close> below code point 256: the letters A to Z and the upper-case letters
  from 192 to 222 (215, the multiplication sign, is no letter) move up by 32.
\<close>

definition lower_char :: "char \<Rightarrow> char" where
  "lower_char c =
     (let n = of_char c :: nat
      in if (65 \<le> n \<and> n \<le> 90) \<or> (192 \<le> n \<and> n \<le> 222 \<and> n \<noteq> 215)
         then char_of (n + 32) else c)"

definition lower :: "string \<Rightarrow> string" where
  "lower s = map lower_char s"

section \<open>Python numbers from and to text\<close>

text \<open>
  \<^verbatim>\<open>int(s)\<close> and \<^verbatim>\<open>float(s)\<close> drop white space at both ends (below code point 256 the
  code points 9 to 13, 32, 133 and 160; unlike \<^verbatim>\<open>strip\<close>, not 28 to 31), read an
  optional sign and then the digits, where one underscore may stand between two digits.
  Anything else raises \<^verbatim>\<open>ValueError\<close>, and so does \<^verbatim>\<open>int\<close> on more digits than the
  interpreter allows: 4300, unless \<^verbatim>\<open>sys.set_int_max_str_digits\<close> has changed it.
\<close>

definition int_max_str_digits :: nat where
  "int_max_str_digits = 4300"

definition num_isspace :: "char \<Rightarrow> bool" where
  "num_isspace c = (of_char c \<in> {9, 10, 11, 12, 13, 32, 133, 160 :: nat})"

definition num_strip :: "string \<Rightarrow> string" where
  "num_strip s = rev (dropWhile num_isspace (rev (dropWhile num_isspace s)))"

definition is_digit :: "char \<Rightarrow> bool" where
  "is_digit c = (48 \<le> (of_char c :: nat) \<and> (of_char c :: nat) \<le> 57)"

definition digit_val :: "char \<Rightarrow> nat" where
  "digit_val c = of_char c - 48"

definition digits_val :: "string \<Rightarrow> nat" where
  "digits_val s = foldl (\<lambda>a c. 10 * a + digit_val c) 0 (filter is_digit s)"

fun digits_ok :: "string \<Rightarrow> bool" where
  "digits_ok [] = False"
| "digits_ok [c] = is_digit c"
| "digits_ok (c # d # s) =
     (is_digit c \<and> (if d = CHR ''_'' then digits_ok s else digits_ok (d # s)))"

definition has_minus :: "string \<Rightarrow> bool" where
  "has_minus t = (case t of [] \<Rightarrow> False | c # r \<Rightarrow> c = CHR ''-'')"

definition unsigned :: "string \<Rightarrow> string" where
  "unsigned t =
     (case t of [] \<Rightarrow> [] | c # r \<Rightarrow> if c = CHR ''-'' \<or> c = CHR ''+'' then r else t)"

definition py_int_str :: "string \<Rightarrow> py_error + int" where
  "py_int_str s =
     (let t = num_strip s
      in if digits_ok (unsigned t)
            \<and> length (filter is_digit (unsigned t)) \<le> int_max_str_digits
         then Inr (if has_minus t then - int (digits_val (unsigned t))
                   else int (digits_val (unsigned t)))
         else Inl ValueError)"

text \<open>
  \<^verbatim>\<open>int(v)\<close> on a value: an integer is returned as it is, a string is read, a float is cut
  towards zero (an infinity raises \<^verbatim>\<open>OverflowError\<close>, not-a-number \<^verbatim>\<open>ValueError\<close>).
\<close>

fun py_int :: "pyval \<Rightarrow> py_error + int" where
  "py_int (PInt n) = Inr n"
| "py_int (PStr s) = py_int_str s"
| "py_int (PFloat (Finite q)) = Inr (if q < 0 then - \<lfloor>- q\<rfloor> else \<lfloor>q\<rfloor>)"
| "py_int (PFloat NegZero) = Inr 0"
| "py_int (PFloat NaN) = Inl ValueError"
| "py_int (PFloat x) = Inl OverflowError"

section \<open>Python floats\<close>

text \<open>
  Rounding to the nearest integer, a tie to the even one.
\<close>

definition round_half_even :: "rat \<Rightarrow> int" where
  "round_half_even x =
     (let f = \<lfloor>x\<rfloor>; d = x - of_int f
      in if d < 1 / 2 then f
         else if 1 / 2 < d then f + 1
         else if even f then f else f + 1)"

text \<open>
  The number of binary digits of a positive integer, and with it the exponent of the
  power of two at or below a positive rational.
\<close>

function bit_length :: "int \<Rightarrow> int" where
  "bit_length n = (if n \<le> 0 then 0 else 1 + bit_length (n div 2))"
  by pat_completeness auto
termination
  by (relation "measure nat") auto

definition ilog2 :: "rat \<Rightarrow> int" where
  "ilog2 x =
     (if 1 \<le> x then bit_length \<lfloor>x\<rfloor> - 1
      else - bit_length (\<lceil>1 / x\<rceil> - 1))"

text \<open>
  The double nearest to a rational that is not negative: the significand has 53 bits,
  so the last place is 52 binary places below the leading one, and never below the place
  of the smallest subnormal double, two to the power of -1074.
\<close>

definition round_double :: "rat \<Rightarrow> rat" where
  "round_double m =
     (if m = 0 then 0
      else (let q = max (ilog2 m - 52) (- 1074)
            in of_int (round_half_even (m * power_int 2 (- q))) * power_int 2 q))"

text \<open>
  The float of a sign and a magnitude: a magnitude that rounds to two to the power of
  1024 or more is an infinity, one that rounds to nothing a zero of the sign.
\<close>

definition to_double :: "bool \<Rightarrow> rat \<Rightarrow> pyfloat" where
  "to_double negative m =
     (let r = round_double m
      in if r \<noteq> 0 \<and> 1024 \<le> ilog2 r then (if negative then NegInf else PosInf)
         else if r = 0 then (if negative then NegZero else Finite 0)
         else Finite (if negative then - r else r))"

definition nearest_double :: "rat \<Rightarrow> pyfloat" where
  "nearest_double x = to_double (x < 0) \<bar>x\<bar>"

definition is_negative :: "pyfloat \<Rightarrow> bool" where
  "is_negative x =
     (case x of Finite q \<Rightarrow> q < 0 | NegZero \<Rightarrow> True | NegInf \<Rightarrow> True
      | PosInf \<Rightarrow> False | NaN \<Rightarrow> False)"

definition is_inf :: "pyfloat \<Rightarrow> bool" where
  "is_inf x = (x = PosInf \<or> x = NegInf)"

definition is_zero :: "pyfloat \<Rightarrow> bool" where
  "is_zero x = (x = Finite 0 \<or> x = NegZero)"

definition magnitude :: "pyfloat \<Rightarrow> rat" where
  "magnitude x = (case x of Finite q \<Rightarrow> \<bar>q\<bar> | _ \<Rightarrow> 0)"

text \<open>
  \<^verbatim>\<open>float(n)\<close> of an integer raises \<^verbatim>\<open>OverflowError\<close> when the integer is too large for a
  double; so does \<^verbatim>\<open>a / b\<close> on integers, which raises \<^verbatim>\<open>ZeroDivisionError\<close> on a zero
  divisor and returns the double nearest to the quotient otherwise.
\<close>

definition int_to_float :: "int \<Rightarrow> py_error + pyfloat" where
  "int_to_float n =
     (let x = to_double (n < 0) (of_int \<bar>n\<bar>)
      in if is_inf x then Inl OverflowError else Inr x)"

definition true_div :: "int \<Rightarrow> int \<Rightarrow> py_error + pyfloat" where
  "true_div a b =
     (if b = 0 then Inl ZeroDivisionError
      else (let x = to_double ((a < 0) \<noteq> (b < 0)) \<bar>of_int a / of_int b\<bar>
            in if is_inf x then Inl OverflowError else Inr x))"

text \<open>
  \<^verbatim>\<open>x * y\<close> on floats raises nothing: a product too large is an infinity, and an
  infinity times a zero is not-a-number.
\<close>

definition float_mul :: "pyfloat \<Rightarrow> pyfloat \<Rightarrow> pyfloat" where
  "float_mul x y =
     (if x = NaN \<or> y = NaN then NaN
      else (let negative = (is_negative x \<noteq> is_negative y)
            in if is_inf x \<or> is_inf y then
                 (if is_zero x \<or> is_zero y then NaN
                  else if negative then NegInf else PosInf)
               else to_double negative (magnitude x * magnitude y)))"

text \<open>
  \<^verbatim>\<open>x >= y\<close> on floats: false when one side is not-a-number; the two zeros are equal.
\<close>

definition float_ge :: "pyfloat \<Rightarrow> pyfloat \<Rightarrow> bool" where
  "float_ge x y =
     (if x = NaN \<or> y = NaN then False
      else if x = PosInf \<or> y = NegInf then True
      else if x = NegInf \<or> y = PosInf then False
      else (case x of Finite q \<Rightarrow> q | _ \<Rightarrow> 0) \<ge> (case y of Finite q \<Rightarrow> q | _ \<Rightarrow> 0))"

text \<open>
  \<^verbatim>\<open>round(x, ndigits)\<close> for a small number of digits that is not negative: the decimal
  with that many digits after the point nearest to the float, a tie to the even last
  digit, and then the double nearest to this decimal. An infinity and not-a-number are
  returned as they are.
\<close>

definition py_round :: "pyfloat \<Rightarrow> nat \<Rightarrow> pyfloat" where
  "py_round x ndigits =
     (case x of
        Finite q \<Rightarrow>
          to_double (q < 0) \<bar>of_int (round_half_even (q * 10 ^ ndigits)) / 10 ^ ndigits\<bar>
      | _ \<Rightarrow> x)"

text \<open>
  \<^verbatim>\<open>float(s)\<close>: an underscore must stand between two digits; then, after the sign,
  \<^verbatim>\<open>inf\<close>, \<^verbatim>\<open>infinity\<close> and \<^verbatim>\<open>nan\<close> in any case, or a decimal literal: digits with at most
  one point and at least one digit, and an optional exponent of at least one digit.
\<close>

fun underscores_ok_from :: "char \<Rightarrow> string \<Rightarrow> bool" where
  "underscores_ok_from prev [] = (prev \<noteq> CHR ''_'')"
| "underscores_ok_from prev (c # s) =
     ((if c = CHR ''_'' then is_digit prev
       else if prev = CHR ''_'' then is_digit c else True)
      \<and> underscores_ok_from c s)"

definition exponent_of :: "string \<Rightarrow> int option" where
  "exponent_of r =
     (if r = [] then Some 0
      else if hd r = CHR ''e'' \<or> hd r = CHR ''E'' then
        (let ds = unsigned (tl r)
         in if ds \<noteq> [] \<and> list_all is_digit ds
            then Some (if has_minus (tl r) then - int (digits_val ds) else int (digits_val ds))
            else None)
      else None)"

definition decimal_literal :: "string \<Rightarrow> rat option" where
  "decimal_literal b =
     (let ip = takeWhile is_digit b;
          r1 = dropWhile is_digit b;
          r2 = (if r1 \<noteq> [] \<and> hd r1 = CHR ''.'' then tl r1 else r1);
          fp = takeWhile is_digit r2;
          r3 = dropWhile is_digit r2
      in if ip = [] \<and> fp = [] then None
         else case exponent_of r3 of
           None \<Rightarrow> None
         | Some e \<Rightarrow>
             Some (of_nat (digits_val (ip @ fp)) * power_int 10 (e - int (length fp))))"

definition py_float :: "string \<Rightarrow> pyfloat option" where
  "py_float s =
     (let t = num_strip s
      in if \<not> underscores_ok_from (CHR 0x00) t then None
         else
           (let u = filter (\<lambda>c. c \<noteq> CHR ''_'') t;
                body = lower (unsigned u)
            in if body = ''inf'' \<or> body = ''infinity''
               then Some (if has_minus u then NegInf else PosInf)
               else if body = ''nan'' then Some NaN
               else case decimal_literal (unsigned u) of
                 None \<Rightarrow> None
               | Some q \<Rightarrow> Some (to_double (has_minus u) q)))"

definition isnan :: "pyfloat \<Rightarrow> bool" where
  "isnan x = (x = NaN)"

text \<open>
  \<^verbatim>\<open>str(n)\<close> of an integer: the decimal digits, after a minus sign when negative. (On an
  integer of more digits than the interpreter allows Python raises \<^verbatim>\<open>ValueError\<close>; the
  MSH2 module formats the counts as the strings they are in the file.)
\<close>

definition digit_char :: "nat \<Rightarrow> char" where
  "digit_char n = char_of (48 + n)"

fun nat_str :: "nat \<Rightarrow> string" where
  "nat_str n = (if n < 10 then [digit_char n] else nat_str (n div 10) @ [digit_char (n mod 10)])"

definition int_str :: "int \<Rightarrow> string" where
  "int_str n = (if n < 0 then CHR ''-'' # nat_str (nat (- n)) else nat_str (nat n))"

text \<open>
  \<^verbatim>\<open>str(x)\<close> of a float prints the shortest decimal that reads back as the same double.
  For a double that \<^verbatim>\<open>round(_, 2)\<close> returned and that is smaller than ten to the power of
  13 in magnitude, this is the decimal of the rounding: the integer part, the point, and
  the hundredths without a closing zero. The function below prints this decimal, the
  multiple of a hundredth nearest to the double; it is not the text Python prints for
  other floats (more digits, or the exponent form from \<^verbatim>\<open>1e16\<close> on).
\<close>

definition float_str :: "rat \<Rightarrow> string" where
  "float_str x =
     (let n = nat (round_half_even (\<bar>x\<bar> * 100));
          ip = n div 100;
          fp = n mod 100
      in (if x < 0 then ''-'' else []) @ nat_str ip @ ''.'' @
         (if fp mod 10 = 0 then [digit_char (fp div 10)]
          else [digit_char (fp div 10), digit_char (fp mod 10)]))"

fun pyfloat_str :: "pyfloat \<Rightarrow> string" where
  "pyfloat_str (Finite q) = float_str q"
| "pyfloat_str NegZero = ''-0.0''"
| "pyfloat_str PosInf = ''inf''"
| "pyfloat_str NegInf = ''-inf''"
| "pyfloat_str NaN = ''nan''"

fun py_str :: "pyval \<Rightarrow> string" where
  "py_str (PStr s) = s"
| "py_str (PInt n) = int_str n"
| "py_str (PFloat x) = pyfloat_str x"

section \<open>Sex prediction: the consensus of the three methods\<close>

text \<open>
  \<^verbatim>\<open>MultiqcModule._calculate_gender_consensus\<close> of \<^verbatim>\<open>sample_gender.py\<close>. The inner loop
  counts the methods that say \<^verbatim>\<open>"M"\<close> and those that say \<^verbatim>\<open>"F"\<close>; the state of the loop
  is the pair of the two counters.
\<close>

definition list_gender_methods :: "string list" where
  "list_gender_methods = [''gender_xy'', ''gender_hetx'', ''gender_sry'']"

definition count_method :: "pydict \<Rightarrow> string \<Rightarrow> nat \<times> nat \<Rightarrow> nat \<times> nat" where
  "count_method data method cnt =
     (let gender = dict_get data method;
          count_M = fst cnt;
          count_F = snd cnt
      in if gender = Some (PStr ''M'') then (count_M + 1, count_F)
         else if gender = Some (PStr ''F'') then (count_M, count_F + 1)
         else (count_M, count_F))"

definition count_genders :: "pydict \<Rightarrow> nat \<times> nat" where
  "count_genders data = fold (count_method data) list_gender_methods (0, 0)"

text \<open>
  The body of the loop over the samples, for one sample's record: the certainty and the
  consensus from the two counters, written into the record. A counter, at most 3, and
  \<^verbatim>\<open>3.0\<close> are doubles as they stand, so \<^verbatim>\<open>count / total\<close> is the double nearest to the
  quotient.
\<close>

definition consensus_of_counts :: "nat \<Rightarrow> nat \<Rightarrow> pyfloat \<times> string" where
  "consensus_of_counts count_M count_F =
     (let total = 3;
          percentage = Finite 0;
          calc_sex = ''Unknown''
      in if count_M \<ge> count_F then
           (nearest_double (of_nat count_M / total),
            if count_M > count_F then ''M'' else calc_sex)
         else if count_F \<ge> count_M then
           (nearest_double (of_nat count_F / total),
            if count_F > count_M then ''F'' else calc_sex)
         else (percentage, calc_sex))"

definition gender_consensus :: "pydict \<Rightarrow> pydict" where
  "gender_consensus data =
     (let cnt = count_genders data;
          res = consensus_of_counts (fst cnt) (snd cnt)
      in dict_set (dict_set data ''certainty'' (PFloat (fst res)))
           ''calc_gender'' (PStr (snd res)))"

text \<open>The loop over \<^verbatim>\<open>self.samplegender_data.items()\<close>: every sample's record is rewritten.\<close>

definition calculate_gender_consensus ::
  "(string \<times> pydict) list \<Rightarrow> (string \<times> pydict) list" where
  "calculate_gender_consensus samplegender_data =
     map (\<lambda>(sample, data). (sample, gender_consensus data)) samplegender_data"

section \<open>Sex prediction: the parser of one report\<close>

text \<open>
  \<^verbatim>\<open>parse_file\<close> of \<^verbatim>\<open>sample_gender.py\<close>. The first value is read without a check
  (\<^verbatim>\<open>values[0]\<close>), so a data row with one column raises \<^verbatim>\<open>IndexError\<close>.
\<close>

definition canonical_gender :: "string \<Rightarrow> string" where
  "canonical_gender v =
     (if lower v = ''male'' then ''M''
      else if lower v = ''female'' then ''F''
      else v)"

definition param_map :: "(string \<times> string) list" where
  "param_map = [(''reads_chry'', ''gender_xy''), (''het_fraction'', ''gender_hetx''),
     (''coverage_sry'', ''gender_sry'')]"

text \<open>
  One round of the loop over \<^verbatim>\<open>param_map.items()\<close>. The assignment \<^verbatim>\<open>headers[0] = new_key\<close>
  runs only when \<^verbatim>\<open>col_name\<close> is in the list, which is not empty then.
\<close>

definition rename_header :: "string \<times> string \<Rightarrow> string list \<Rightarrow> string list" where
  "rename_header p headers =
     (let col_name = fst p; new_key = snd p
      in if col_name \<in> set headers then headers[0 := new_key] else headers)"

definition rename_headers :: "string list \<Rightarrow> string list" where
  "rename_headers headers = fold rename_header param_map headers"

definition coerce_value :: "string \<Rightarrow> pyval" where
  "coerce_value value =
     (case py_float value of
        Some val_float \<Rightarrow> if isnan val_float then PStr ''N/A'' else PFloat val_float
      | None \<Rightarrow> PStr value)"

definition store_coerced :: "string \<times> string \<Rightarrow> pydict \<Rightarrow> pydict" where
  "store_coerced kv parsed_data = dict_set parsed_data (fst kv) (coerce_value (snd kv))"

definition gender_parse_file :: "string \<Rightarrow> py_error + pydict" where
  "gender_parse_file f =
     (let parsed_data = [];
          lines = splitlines f
      in if length lines < 2 then Inr parsed_data
         else
           (let headers = slice_1_6 (split_on (CHR 0x09) (strip (lines ! 0)));
                values = slice_1_6 (split_on (CHR 0x09) (strip (lines ! 1)))
            in bind_err (list_index values 0) (\<lambda>v0.
                 Inr (fold store_coerced
                        (zip (rename_headers headers) (values[0 := canonical_gender v0]))
                        parsed_data))))"

section \<open>MSH2 hotspot variants: the parser and the frequencies\<close>

text \<open>
  \<^verbatim>\<open>parse_file\<close> of \<^verbatim>\<open>targeted_MSH2.py\<close>. The guard lets three lines pass, and the
  values are read from the fourth (\<^verbatim>\<open>lines[3]\<close>).
\<close>

type_synonym config = "(string \<times> int) list"

definition wt_key :: string where
  "wt_key = ''MSH2_c.942+3_wt''"

definition store_raw :: "string \<times> string \<Rightarrow> pydict \<Rightarrow> pydict" where
  "store_raw kv parsed_data = dict_set parsed_data (fst kv) (PStr (snd kv))"

definition extract_record :: "string list \<Rightarrow> py_error + pydict" where
  "extract_record lines =
     bind_err (list_index lines 2) (\<lambda>line3.
     bind_err (list_index lines 3) (\<lambda>line4.
       (let headers = slice_1_6 (split_on (CHR '' '') (strip line3));
            values = slice_1_6 (split_on (CHR '' '') (strip line4))
        in Inr (fold store_raw (zip headers values) []))))"

text \<open>
  The frequency of one variant, in the order in which Python evaluates the expression:
  \<^verbatim>\<open>int(counts)\<close>, the wild-type entry, its \<^verbatim>\<open>int\<close>, \<^verbatim>\<open>int(counts)\<close> again, the division.
\<close>

definition variant_frequency :: "pydict \<Rightarrow> pyval \<Rightarrow> py_error + pyfloat" where
  "variant_frequency parsed_data counts =
     bind_err (py_int counts) (\<lambda>c.
     bind_err (dict_index parsed_data wt_key) (\<lambda>wt.
     bind_err (py_int wt) (\<lambda>w.
     bind_err (py_int counts) (\<lambda>c'.
     bind_err (true_div c (w + c')) (\<lambda>q.
       Inr (py_round (float_mul q (Finite 100)) 2))))))"

definition format_frequency :: "pyfloat \<Rightarrow> pyval \<Rightarrow> string" where
  "format_frequency freq counts = pyfloat_str freq @ ''% ('' @ py_str counts @ '')''"

text \<open>The expression \<^verbatim>\<open>float(config["sanger_threshold"])\<close>.\<close>

definition threshold_of :: "config \<Rightarrow> py_error + pyfloat" where
  "threshold_of config = bind_err (dict_index config ''sanger_threshold'') int_to_float"

text \<open>
  The body of the loop over \<^verbatim>\<open>parsed_data.items()\<close> for the entry of one key. Both arms of
  the comparison with the threshold store the same string, as in the source.
\<close>

definition derive_field :: "config \<Rightarrow> string \<Rightarrow> pydict \<Rightarrow> py_error + pydict" where
  "derive_field config variant parsed_data =
     bind_err (dict_index parsed_data variant) (\<lambda>counts.
       if variant \<noteq> wt_key then
         bind_err (variant_frequency parsed_data counts) (\<lambda>freq.
         bind_err (threshold_of config) (\<lambda>threshold.
           if float_ge freq threshold
           then Inr (dict_set parsed_data variant (PStr (format_frequency freq counts)))
           else Inr (dict_set parsed_data variant (PStr (format_frequency freq counts)))))
       else
         bind_err (dict_index parsed_data variant) (\<lambda>v.
         bind_err (py_int v) (\<lambda>n.
           Inr (dict_set parsed_data variant (PInt n)))))"

text \<open>
  The loop visits the keys the dictionary had when it started; the assignments change
  values only, so the keys and their order stay.
\<close>

fun frequency_loop :: "config \<Rightarrow> string list \<Rightarrow> pydict \<Rightarrow> py_error + pydict" where
  "frequency_loop config [] parsed_data = Inr parsed_data"
| "frequency_loop config (variant # rest) parsed_data =
     (case derive_field config variant parsed_data of
        Inl e \<Rightarrow> Inl e
      | Inr parsed_data' \<Rightarrow> frequency_loop config rest parsed_data')"

definition frequency_derivation :: "config \<Rightarrow> pydict \<Rightarrow> py_error + pydict" where
  "frequency_derivation config parsed_data =
     frequency_loop config (map fst parsed_data) parsed_data"

definition msh2_parse_file :: "string \<Rightarrow> config \<Rightarrow> py_error + pydict" where
  "msh2_parse_file f config =
     (let parsed_data = [];
          lines = splitlines f
      in if length lines < 3 then Inr parsed_data
         else bind_err (extract_record lines) (frequency_derivation config))"

section \<open>The claims' own words, and example inputs\<close>

text \<open>
  The specification counts how many of the three method fields equal a given letter; this
  is that count, written apart from the loop of the source.
\<close>

definition methods_equal :: "pydict \<Rightarrow> string \<Rightarrow> nat" where
  "methods_equal data g =
     length (filter (\<lambda>method. dict_get data method = Some (PStr g))
       [''gender_xy'', ''gender_hetx'', ''gender_sry''])"

text \<open>A registry of two samples: two methods against one, and a sample with no call.\<close>

definition example_record :: pydict where
  "example_record =
     [(''gender_xy'', PStr ''M''), (''ratio_chry_chrx'', PFloat (nearest_double (1 / 10))),
      (''gender_hetx'', PStr ''F''), (''gender_sry'', PStr ''M'')]"

definition example_registry :: "(string \<times> pydict) list" where
  "example_registry =
     [(''S1'', example_record),
      (''S2'', [(''gender_hetx'', PStr ''unknown (too few SNPs)'')])]"

text \<open>The same record after an earlier run left other derived values in it.\<close>

definition stale_record :: pydict where
  "stale_record =
     [(''gender_xy'', PStr ''M''), (''certainty'', PFloat (Finite 0)),
      (''gender_hetx'', PStr ''F''), (''calc_gender'', PStr ''F''),
      (''gender_sry'', PStr ''M'')]"

text \<open>
  The entry that the specification describes for one key after the frequency derivation,
  given the wild-type count \<open>w\<close>: the wild-type entry holds the integer, a variant entry the
  frequency in percent, rounded to two digits, and the count as it stood in the file.
\<close>

definition frequency_text :: "int \<Rightarrow> int \<Rightarrow> string option" where
  "frequency_text w c =
     (case true_div c (w + c) of
        Inr q \<Rightarrow> Some (pyfloat_str (py_round (float_mul q (Finite 100)) 2))
      | Inl e \<Rightarrow> None)"

definition derived_entry :: "int \<Rightarrow> string \<times> pyval \<Rightarrow> string \<times> pyval" where
  "derived_entry w kv =
     (if fst kv \<noteq> wt_key then
        (case py_int (snd kv) of
           Inr c \<Rightarrow>
             (case frequency_text w c of
                Some t \<Rightarrow> (fst kv, PStr (t @ ''% ('' @ py_str (snd kv) @ '')''))
              | None \<Rightarrow> kv)
         | Inl e \<Rightarrow> kv)
      else (fst kv, PInt w))"




definition default_config :: config where
  "default_config = [(''sanger_threshold'', 28)]"


text \<open>A report that ends after the header line: three lines.\<close>

definition msh2_three_lines :: string where
  "msh2_three_lines =
     ''# targeted MSH2 hotspot\<newline># read counts\<newline>sample MSH2_c.942+3_wt MSH2_c.942+3A>T MSH2_c.942+2T>A MSH2_c.942+2T>C MSH2_c.942+2T>G''"

text \<open>A report of a sample without reads at the hotspot: every count is zero.\<close>

definition msh2_zero_report :: string where
  "msh2_zero_report =
     ''# targeted MSH2 hotspot\<newline># read counts\<newline>sample MSH2_c.942+3_wt MSH2_c.942+3A>T MSH2_c.942+2T>A MSH2_c.942+2T>C MSH2_c.942+2T>G\<newline>S1 0 0 0 0 0''"

definition msh2_zero_parsed :: pydict where
  "msh2_zero_parsed =
     [(''MSH2_c.942+3_wt'', PStr ''0''), (''MSH2_c.942+3A>T'', PStr ''0''),
      (''MSH2_c.942+2T>A'', PStr ''0''), (''MSH2_c.942+2T>C'', PStr ''0''),
      (''MSH2_c.942+2T>G'', PStr ''0'')]"

text \<open>A report with a count that is no number, and one whose table has the sample column only.\<close>

definition msh2_bad_report :: string where
  "msh2_bad_report =
     ''# targeted MSH2 hotspot\<newline># read counts\<newline>sample MSH2_c.942+3_wt MSH2_c.942+3A>T\<newline>S1 100 n/a''"

definition msh2_bad_parsed :: pydict where
  "msh2_bad_parsed = [(''MSH2_c.942+3_wt'', PStr ''100''), (''MSH2_c.942+3A>T'', PStr ''n/a'')]"

definition msh2_no_columns :: string where
  "msh2_no_columns = ''# targeted MSH2 hotspot\<newline># read counts\<newline>sample\<newline>S1''"

text \<open>
  Sex-prediction reports, tab-separated. The first has the header of the specification's
  example; its data row holds a sex in words, a number, a not-a-number and a text. The
  header of a chromosome-ratio report as the tool writes it follows: the column named
  \<^verbatim>\<open>reads_chry\<close> is the second one kept. The last two reports have a data row of one column
  and an empty data row.
\<close>

definition gender_report :: string where
  "gender_report =
     ''s_name'' @ [CHR 0x09] @ ''reads_chry'' @ [CHR 0x09] @ ''other'' @ [CHR 0x09] @ ''other2''
       @ [CHR 0x09] @ ''other3'' @ [CHR 0x09] @ ''other4'' @ ''\<newline>''
     @ ''S1'' @ [CHR 0x09] @ ''Male'' @ [CHR 0x09] @ ''0.95'' @ [CHR 0x09] @ ''nan''
       @ [CHR 0x09] @ ''n/a'' @ [CHR 0x09] @ ''12''"

definition gender_parsed :: pydict where
  "gender_parsed =
     [(''gender_xy'', PStr ''M''), (''other'', PFloat (nearest_double (19 / 20))),
      (''other2'', PStr ''N/A''), (''other3'', PStr ''n/a''), (''other4'', PFloat (Finite 12))]"

definition gender_short_report :: string where
  "gender_short_report = ''s_name'' @ [CHR 0x09] @ ''gender'' @ ''\<newline>'' @ ''S1''"

definition gender_blank_row_report :: string where
  "gender_blank_row_report = ''s_name'' @ [CHR 0x09] @ ''gender'' @ ''\<newline>\<newline>''"


definition xy_headers :: "string list" where
  "xy_headers = [''gender'', ''reads_chry'', ''reads_chrx'', ''ratio_chry_chrx'']"

section \<open>Dictionaries: basic facts\<close>

lemma dict_get_dict_set:
  "dict_get (dict_set d k v) k' = (if k' = k then Some v else dict_get d k')"
  by (induction d) (auto simp: dict_get_def)

lemma dict_set_same: "dict_get d k = Some v \<Longrightarrow> dict_set d k v = d"
  by (induction d) (auto simp: dict_get_def split: if_splits)

lemma keys_dict_set_old: "k \<in> fst ` set d \<Longrightarrow> map fst (dict_set d k v) = map fst d"
  by (induction d) force+

lemma keys_dict_set_new: "k \<notin> fst ` set d \<Longrightarrow> map fst (dict_set d k v) = map fst d @ [k]"
  by (induction d) auto

lemma distinct_dict_set: "distinct (map fst d) \<Longrightarrow> distinct (map fst (dict_set d k v))"
  by (cases "k \<in> fst ` set d") (simp_all add: keys_dict_set_old keys_dict_set_new)

lemma set_dict_set: "set (dict_set d k v) \<subseteq> insert (k, v) (set d)"
  by (induction d) (auto split: if_splits)

lemma dict_set_middle:
  "k \<notin> fst ` set pre \<Longrightarrow> dict_set (pre @ (k, v) # post) k v' = pre @ (k, v') # post"
  by (induction pre) auto

lemma dict_get_middle:
  "k \<notin> fst ` set pre \<Longrightarrow> dict_get (pre @ (k, v) # post) k = Some v"
  by (induction pre) (auto simp: dict_get_def)

lemma dict_get_other:
  "k' \<noteq> k \<Longrightarrow> dict_get (pre @ (k, v') # post) k' = dict_get (pre @ (k, v) # post) k'"
  by (induction pre) (auto simp: dict_get_def)

lemma bind_err_Inl [simp]: "bind_err (Inl e) f = Inl e"
  by (simp add: bind_err_def)

lemma bind_err_Inr [simp]: "bind_err (Inr x) f = f x"
  by (simp add: bind_err_def)

section \<open>Floats: rounding stays in range\<close>








lemma to_double_one: "to_double False 1 = Finite 1"
  by code_simp

lemma true_div_self:
  assumes "c \<noteq> 0"
  shows "true_div c c = Inr (Finite 1)"
  using assms by (simp add: true_div_def Let_def to_double_one is_inf_def)

lemma nearest_double_zero: "nearest_double 0 = Finite 0"
  by (simp add: nearest_double_def to_double_def round_double_def)

lemma nearest_double_one: "nearest_double 1 = Finite 1"
  by (simp add: nearest_double_def to_double_one)

section \<open>Sex prediction: properties of the consensus\<close>

lemma count_genders_eq:
  "count_genders data = (methods_equal data ''M'', methods_equal data ''F'')"
  by (simp add: count_genders_def list_gender_methods_def count_method_def methods_equal_def)

lemma methods_equal_le: "methods_equal data ''M'' + methods_equal data ''F'' \<le> 3"
  by (simp add: methods_equal_def)

lemma methods_equal_cong:
  assumes "\<forall>method \<in> set list_gender_methods. dict_get data' method = dict_get data method"
  shows "methods_equal data' g = methods_equal data g"
  using assms by (simp add: methods_equal_def list_gender_methods_def)

lemma dict_get_calculate:
  "dict_get (calculate_gender_consensus reg) sample
     = map_option gender_consensus (dict_get reg sample)"
  by (induction reg) (auto simp: calculate_gender_consensus_def dict_get_def)

lemma thirds:
  assumes "n \<le> 3"
  shows "nearest_double (of_nat n / 3)
     \<in> {Finite 0, nearest_double (1 / 3), nearest_double (2 / 3), Finite 1}"
proof -
  from assms consider "n = 0" | "n = 1" | "n = 2" | "n = 3" by linarith
  then show ?thesis
    by cases (simp_all add: nearest_double_zero nearest_double_one)
qed

lemma consensus_of_counts_cases:
  assumes "m + f \<le> 3" and "consensus_of_counts m f = (c, g)"
  shows "c \<in> {Finite 0, nearest_double (1 / 3), nearest_double (2 / 3), Finite 1} \<and>
     g \<in> {''M'', ''F'', ''Unknown''} \<and>
     (g = ''Unknown'' \<longleftrightarrow> m = f) \<and>
     (m \<ge> f \<longrightarrow> c = nearest_double (of_nat m / 3) \<and> (g = ''M'' \<longleftrightarrow> m > f)) \<and>
     (m < f \<longrightarrow> c = nearest_double (of_nat f / 3) \<and> g = ''F'')"
proof -
  have m: "m \<le> 3" and f: "f \<le> 3" using assms(1) by simp_all
  show ?thesis
    using assms(2) thirds[OF m] thirds[OF f]
    by (auto simp: consensus_of_counts_def Let_def split: if_splits)
qed

lemma gender_consensus_fields:
  assumes "consensus_of_counts (methods_equal data ''M'') (methods_equal data ''F'') = (c, g)"
  shows "dict_get (gender_consensus data) ''certainty'' = Some (PFloat c)"
    and "dict_get (gender_consensus data) ''calc_gender'' = Some (PStr g)"
  by (simp_all add: gender_consensus_def Let_def dict_get_dict_set count_genders_eq assms)

text \<open>
  C1. For every record of the registry, the consensus derivation leaves a certainty that
  is one of the floats 0.0, 1/3, 2/3 and 1.0 (the doubles nearest to the fractions) and a
  consensus that is one of M, F and Unknown. The consensus is Unknown exactly when as many
  of the three method fields equal M as equal F. When at least as many equal M as F, the
  certainty is the M count over 3 and the consensus is M exactly when the M count is
  strictly larger; otherwise the certainty is the F count over 3 and the consensus is F.
\<close>

theorem consensus_certainty_and_call:
  assumes "dict_get reg sample = Some data"
  shows "\<exists>data' c g.
     dict_get (calculate_gender_consensus reg) sample = Some data' \<and>
     dict_get data' ''certainty'' = Some (PFloat c) \<and>
     dict_get data' ''calc_gender'' = Some (PStr g) \<and>
     c \<in> {Finite 0, nearest_double (1 / 3), nearest_double (2 / 3), Finite 1} \<and>
     g \<in> {''M'', ''F'', ''Unknown''} \<and>
     (g = ''Unknown'' \<longleftrightarrow> methods_equal data ''M'' = methods_equal data ''F'') \<and>
     (methods_equal data ''M'' \<ge> methods_equal data ''F'' \<longrightarrow>
        c = nearest_double (of_nat (methods_equal data ''M'') / 3) \<and>
        (g = ''M'' \<longleftrightarrow> methods_equal data ''M'' > methods_equal data ''F'')) \<and>
     (methods_equal data ''M'' < methods_equal data ''F'' \<longrightarrow>
        c = nearest_double (of_nat (methods_equal data ''F'') / 3) \<and> g = ''F'')"
proof -
  obtain c g where
    cg: "consensus_of_counts (methods_equal data ''M'') (methods_equal data ''F'') = (c, g)"
    by (cases "consensus_of_counts (methods_equal data ''M'') (methods_equal data ''F'')") blast
  have "dict_get (calculate_gender_consensus reg) sample = Some (gender_consensus data)"
    by (simp add: dict_get_calculate assms)
  with consensus_of_counts_cases[OF methods_equal_le cg] gender_consensus_fields[OF cg]
  show ?thesis by blast
qed

theorem consensus_certainty_and_call_witness:
  "dict_get example_registry ''S1'' = Some example_record \<and>
   methods_equal example_record ''M'' = 2 \<and> methods_equal example_record ''F'' = 1 \<and>
   (\<exists>data'. dict_get (calculate_gender_consensus example_registry) ''S1'' = Some data' \<and>
      dict_get data' ''certainty'' = Some (PFloat (nearest_double (2 / 3))) \<and>
      dict_get data' ''calc_gender'' = Some (PStr ''M'')) \<and>
   nearest_double (2 / 3) = Finite (6004799503160661 / 9007199254740992)"
proof -
  have h: "dict_get example_registry ''S1'' = Some example_record"
    by (simp add: example_registry_def dict_get_def)
  have m: "methods_equal example_record ''M'' = 2"
    by (simp add: methods_equal_def example_record_def dict_get_def)
  have f: "methods_equal example_record ''F'' = 1"
    by (simp add: methods_equal_def example_record_def dict_get_def)
  from consensus_certainty_and_call[OF h] obtain data' c g where
    r: "dict_get (calculate_gender_consensus example_registry) ''S1'' = Some data'"
       "dict_get data' ''certainty'' = Some (PFloat c)"
       "dict_get data' ''calc_gender'' = Some (PStr g)"
       "methods_equal example_record ''M'' \<ge> methods_equal example_record ''F'' \<longrightarrow>
          c = nearest_double (of_nat (methods_equal example_record ''M'') / 3) \<and>
          (g = ''M'' \<longleftrightarrow> methods_equal example_record ''M'' > methods_equal example_record ''F'')"
    by blast
  from r(4) have "c = nearest_double (2 / 3)" and "g = ''M''" by (simp_all add: m f)
  moreover have "nearest_double (2 / 3) = Finite (6004799503160661 / 9007199254740992)"
    by code_simp
  ultimately show ?thesis using r(1-3) h m f by blast
qed

text \<open>
  C7. The derived fields depend on the three method fields only: two records that agree
  on \<^verbatim>\<open>gender_xy\<close>, \<^verbatim>\<open>gender_hetx\<close> and \<^verbatim>\<open>gender_sry\<close> get the same certainty and the same
  consensus, whatever else they hold. So derived values that are already in the record
  are ignored, and a second run over a record, or over the whole registry, changes nothing.
\<close>

theorem consensus_from_raw_fields_only:
  "((\<forall>method \<in> set list_gender_methods. dict_get data' method = dict_get data method) \<longrightarrow>
      dict_get (gender_consensus data') ''certainty''
        = dict_get (gender_consensus data) ''certainty'' \<and>
      dict_get (gender_consensus data') ''calc_gender''
        = dict_get (gender_consensus data) ''calc_gender'') \<and>
   dict_get (gender_consensus (dict_set (dict_set data ''certainty'' c0) ''calc_gender'' g0))
       ''certainty'' = dict_get (gender_consensus data) ''certainty'' \<and>
   dict_get (gender_consensus (dict_set (dict_set data ''certainty'' c0) ''calc_gender'' g0))
       ''calc_gender'' = dict_get (gender_consensus data) ''calc_gender'' \<and>
   gender_consensus (gender_consensus data) = gender_consensus data \<and>
   calculate_gender_consensus (calculate_gender_consensus reg) = calculate_gender_consensus reg"
proof -
  have agree: "dict_get (gender_consensus d') key = dict_get (gender_consensus d) key"
    if "\<forall>method \<in> set list_gender_methods. dict_get d' method = dict_get d method"
      and "key = ''certainty'' \<or> key = ''calc_gender''" for d' d :: pydict and key
    using that(2) methods_equal_cong[OF that(1)]
    by (auto simp: gender_consensus_def Let_def dict_get_dict_set count_genders_eq)
  have prior: "\<forall>method \<in> set list_gender_methods.
      dict_get (dict_set (dict_set data ''certainty'' c0) ''calc_gender'' g0) method
        = dict_get data method"
    by (simp add: list_gender_methods_def dict_get_dict_set)
  have again: "gender_consensus (gender_consensus d) = gender_consensus d" for d :: pydict
  proof -
    obtain c g where
      cg: "consensus_of_counts (methods_equal d ''M'') (methods_equal d ''F'') = (c, g)"
      by (cases "consensus_of_counts (methods_equal d ''M'') (methods_equal d ''F'')") blast
    have same: "\<forall>method \<in> set list_gender_methods.
        dict_get (gender_consensus d) method = dict_get d method"
      by (simp add: list_gender_methods_def gender_consensus_def Let_def dict_get_dict_set)
    have cg': "consensus_of_counts (methods_equal (gender_consensus d) ''M'')
        (methods_equal (gender_consensus d) ''F'') = (c, g)"
      by (simp add: methods_equal_cong[OF same] cg)
    have "gender_consensus (gender_consensus d)
        = dict_set (dict_set (gender_consensus d) ''certainty'' (PFloat c))
            ''calc_gender'' (PStr g)"
      by (simp add: gender_consensus_def[of "gender_consensus d"] Let_def count_genders_eq cg')
    also have "\<dots> = dict_set (gender_consensus d) ''calc_gender'' (PStr g)"
      by (simp add: dict_set_same[OF gender_consensus_fields(1)[OF cg]])
    also have "\<dots> = gender_consensus d"
      by (rule dict_set_same[OF gender_consensus_fields(2)[OF cg]])
    finally show ?thesis .
  qed
  have registry: "calculate_gender_consensus (calculate_gender_consensus reg)
      = calculate_gender_consensus reg"
    by (induction reg) (auto simp: calculate_gender_consensus_def again)
  from agree prior again registry show ?thesis by blast
qed

theorem consensus_from_raw_fields_only_witness:
  "dict_get stale_record ''gender_xy'' = dict_get example_record ''gender_xy'' \<and>
   dict_get stale_record ''gender_hetx'' = dict_get example_record ''gender_hetx'' \<and>
   dict_get stale_record ''gender_sry'' = dict_get example_record ''gender_sry'' \<and>
   dict_get stale_record ''certainty'' = Some (PFloat (Finite 0)) \<and>
   dict_get (gender_consensus stale_record) ''certainty''
     = Some (PFloat (nearest_double (2 / 3))) \<and>
   dict_get (gender_consensus example_record) ''certainty''
     = Some (PFloat (nearest_double (2 / 3))) \<and>
   dict_get (gender_consensus stale_record) ''calc_gender'' = Some (PStr ''M'') \<and>
   dict_get (gender_consensus example_record) ''calc_gender'' = Some (PStr ''M'')"
proof -
  have h: "\<forall>method \<in> set list_gender_methods.
      dict_get stale_record method = dict_get example_record method"
    by (simp add: list_gender_methods_def stale_record_def example_record_def dict_get_def)
  have e1: "dict_get (gender_consensus example_record) ''certainty''
      = Some (PFloat (nearest_double (2 / 3)))"
    by code_simp
  have e2: "dict_get (gender_consensus example_record) ''calc_gender'' = Some (PStr ''M'')"
    by code_simp
  have s: "dict_get stale_record ''certainty'' = Some (PFloat (Finite 0))"
    by (simp add: stale_record_def dict_get_def)
  from consensus_from_raw_fields_only[of stale_record example_record] h
  have "dict_get (gender_consensus stale_record) ''certainty''
      = dict_get (gender_consensus example_record) ''certainty''"
    and "dict_get (gender_consensus stale_record) ''calc_gender''
      = dict_get (gender_consensus example_record) ''calc_gender''"
    by blast+
  with e1 e2 s h show ?thesis by (simp add: list_gender_methods_def)
qed

section \<open>MSH2: the extraction and the loop over the fields\<close>

lemma fold_store_raw_distinct:
  "distinct (map fst d) \<Longrightarrow> distinct (map fst (fold store_raw kvs d))"
  by (induction kvs arbitrary: d) (simp_all add: store_raw_def distinct_dict_set)

lemma fold_store_raw_strings:
  "\<forall>(k, v) \<in> set d. \<exists>s. v = PStr s
   \<Longrightarrow> \<forall>(k, v) \<in> set (fold store_raw kvs d). \<exists>s. v = PStr s"
proof (induction kvs arbitrary: d)
  case Nil
  then show ?case by simp
next
  case (Cons kv kvs)
  have "\<forall>(k, v) \<in> set (store_raw kv d). \<exists>s. v = PStr s"
    using Cons.prems set_dict_set[of d "fst kv" "PStr (snd kv)"]
    by (auto simp: store_raw_def)
  from Cons.IH[OF this] show ?case by simp
qed

lemma extract_record_Inr:
  assumes "extract_record lines = Inr m"
  shows "4 \<le> length lines \<and> distinct (map fst m) \<and> (\<forall>(k, v) \<in> set m. \<exists>s. v = PStr s)"
proof -
  have len: "4 \<le> length lines"
    using assms by (auto simp: extract_record_def list_index_def split: if_splits)
  then have "m = fold store_raw (zip (slice_1_6 (split_on (CHR '' '') (strip (lines ! 2))))
      (slice_1_6 (split_on (CHR '' '') (strip (lines ! 3))))) []"
    using assms by (simp add: extract_record_def list_index_def Let_def)
  then show ?thesis
    using len fold_store_raw_distinct[of "[]"] fold_store_raw_strings[of "[]"] by simp
qed

lemma msh2_parse_file_extracted:
  assumes "extract_record (splitlines f) = Inr parsed_data"
  shows "msh2_parse_file f config = frequency_derivation config parsed_data"
  using extract_record_Inr[OF assms] assms by (simp add: msh2_parse_file_def Let_def)

lemma derive_field_at:
  assumes "k \<notin> fst ` set pre"
  shows "derive_field config k (pre @ (k, v) # post) =
     (if k \<noteq> wt_key then
        bind_err (variant_frequency (pre @ (k, v) # post) v) (\<lambda>freq.
        bind_err (threshold_of config) (\<lambda>threshold.
          Inr (pre @ (k, PStr (format_frequency freq v)) # post)))
      else bind_err (py_int v) (\<lambda>n. Inr (pre @ (k, PInt n) # post)))"
proof -
  have g: "dict_index (pre @ (k, v) # post) k = Inr v"
    by (simp add: dict_index_def dict_get_middle[OF assms])
  show ?thesis
    unfolding derive_field_def g bind_err_Inr
    by (simp add: dict_set_middle[OF assms] cong: if_cong)
qed

lemma variant_frequency_ok:
  assumes "dict_get d wt_key = Some wt" and "py_int wt = Inr w" and "py_int v = Inr c"
      and "true_div c (w + c) = Inr q"
  shows "variant_frequency d v = Inr (py_round (float_mul q (Finite 100)) 2)"
  using assms by (simp add: variant_frequency_def dict_index_def)

lemma variant_frequency_zero:
  assumes "dict_get d wt_key = Some wt" and "py_int wt = Inr w" and "py_int v = Inr c"
      and "w + c = 0"
  shows "variant_frequency d v = Inl ZeroDivisionError"
  using assms by (simp add: variant_frequency_def dict_index_def true_div_def)

lemma variant_frequency_bad_count:
  assumes "py_int v = Inl e"
  shows "variant_frequency d v = Inl e"
  using assms by (simp add: variant_frequency_def)

lemma variant_frequency_no_wt:
  assumes "dict_get d wt_key = None"
  shows "\<exists>e. variant_frequency d v = Inl e"
  using assms by (cases "py_int v") (simp_all add: variant_frequency_def dict_index_def)

lemma fst_derived_entry: "fst (derived_entry w kv) = fst kv"
  by (simp add: derived_entry_def split: sum.splits option.splits)

lemma derive_field_ok:
  assumes k: "k \<notin> fst ` set pre"
      and wt: "dict_get (pre @ (k, v) # todo) wt_key = Some wt" "py_int wt = Inr w"
      and c: "py_int v = Inr c" "k \<noteq> wt_key \<longrightarrow> (\<exists>q. true_div c (w + c) = Inr q)"
      and cfg: "threshold_of config = Inr threshold"
  shows "derive_field config k (pre @ (k, v) # todo) = Inr (pre @ derived_entry w (k, v) # todo)"
proof (cases "k = wt_key")
  case True
  with wt dict_get_middle[OF k, of v todo] have "py_int v = Inr w" by simp
  then show ?thesis
    using derive_field_at[OF k, of config v todo] True by (simp add: derived_entry_def)
next
  case False
  with c(2) obtain q where q: "true_div c (w + c) = Inr q" by blast
  show ?thesis
    using False c(1) q variant_frequency_ok[OF wt c(1) q] cfg
    by (simp add: derive_field_at[OF k] derived_entry_def frequency_text_def
          format_frequency_def)
qed

lemma wt_after_step:
  assumes k: "k \<notin> fst ` set pre"
      and wt: "dict_get (pre @ (k, v) # todo) wt_key = Some wt" "py_int wt = Inr w"
  shows "\<exists>wt'. dict_get (pre @ derived_entry w (k, v) # todo) wt_key = Some wt'
           \<and> py_int wt' = Inr w"
proof (cases "k = wt_key")
  case True
  have "dict_get (pre @ (k, PInt w) # todo) k = Some (PInt w)" by (rule dict_get_middle[OF k])
  then show ?thesis by (simp add: True derived_entry_def)
next
  case False
  obtain v' where v': "derived_entry w (k, v) = (k, v')"
    using fst_derived_entry[of w "(k, v)"] by (cases "derived_entry w (k, v)") simp
  have "dict_get (pre @ (k, v') # todo) wt_key = dict_get (pre @ (k, v) # todo) wt_key"
    using False by (intro dict_get_other) simp
  then show ?thesis using wt by (simp add: v')
qed


text \<open>The loop meets a variant count of zero while the wild-type count is zero.\<close>

lemma frequency_loop_zero:
  assumes "distinct (map fst (pre @ todo))"
      and "\<exists>wt. dict_get (pre @ todo) wt_key = Some wt \<and> py_int wt = Inr 0"
      and "\<forall>(k, v) \<in> set todo. \<exists>c. py_int v = Inr c"
      and "\<exists>(k, v) \<in> set todo. k \<noteq> wt_key \<and> py_int v = Inr 0"
      and cfg: "threshold_of config = Inr threshold"
  shows "frequency_loop config (map fst todo) (pre @ todo) = Inl ZeroDivisionError"
  using assms(1-4)
proof (induction todo arbitrary: pre)
  case Nil
  then show ?case by simp
next
  case (Cons kv todo)
  obtain k v where kv: "kv = (k, v)" by (cases kv)
  from Cons.prems(1) have k: "k \<notin> fst ` set pre" by (auto simp: kv)
  from Cons.prems(3) obtain c where c: "py_int v = Inr c" by (auto simp: kv)
  from Cons.prems(2) obtain wt where
    wt: "dict_get (pre @ (k, v) # todo) wt_key = Some wt" "py_int wt = Inr 0"
    by (auto simp: kv)
  show ?case
  proof (cases "k \<noteq> wt_key \<and> c = 0")
    case True
    then have "variant_frequency (pre @ (k, v) # todo) v = Inl ZeroDivisionError"
      using variant_frequency_zero[OF wt c] by simp
    then show ?thesis using True by (simp add: kv derive_field_at[OF k])
  next
    case False
    then have nz: "k \<noteq> wt_key \<longrightarrow> (\<exists>q. true_div c (0 + c) = Inr q)"
      using true_div_self[of c] by auto
    have step: "derive_field config k (pre @ (k, v) # todo)
        = Inr (pre @ derived_entry 0 (k, v) # todo)"
      by (rule derive_field_ok[OF k wt c nz cfg])
    let ?pre = "pre @ [derived_entry 0 (k, v)]"
    have 1: "distinct (map fst (?pre @ todo))"
      using Cons.prems(1) by (simp add: kv fst_derived_entry)
    have 2: "\<exists>wt. dict_get (?pre @ todo) wt_key = Some wt \<and> py_int wt = Inr 0"
      using wt_after_step[OF k wt] by simp
    have 3: "\<forall>(k, v) \<in> set todo. \<exists>c. py_int v = Inr c"
      using Cons.prems(3) by simp
    have 4: "\<exists>(k, v) \<in> set todo. k \<noteq> wt_key \<and> py_int v = Inr 0"
      using Cons.prems(4) False c by (auto simp: kv)
    from Cons.IH[OF 1 2 3 4] step show ?thesis by (simp add: kv)
  qed
qed

text \<open>A step that returns has kept the shape of the dictionary and has read a number.\<close>

lemma derive_field_Inr:
  assumes k: "k \<notin> fst ` set pre"
      and ok: "derive_field config k (pre @ (k, v) # post) = Inr d'"
  shows "(\<exists>v'. d' = pre @ (k, v') # post) \<and> (\<exists>c. py_int v = Inr c)"
proof (cases "k = wt_key")
  case True
  then show ?thesis
    using ok derive_field_at[OF k, of config v post]
    by (cases "py_int v") auto
next
  case False
  show ?thesis
  proof (cases "py_int v")
    case (Inl e)
    then show ?thesis
      using ok False variant_frequency_bad_count[OF Inl]
      by (simp add: derive_field_at[OF k])
  next
    case (Inr c)
    then show ?thesis
      using ok False
      by (auto simp: derive_field_at[OF k] bind_err_def split: sum.splits)
  qed
qed

lemma frequency_loop_bad_value:
  assumes "distinct (map fst (pre @ todo))"
      and "(k, v) \<in> set todo" and "py_int v = Inl e"
  shows "\<exists>e'. frequency_loop config (map fst todo) (pre @ todo) = Inl e'"
  using assms(1,2)
proof (induction todo arbitrary: pre)
  case Nil
  then show ?case by simp
next
  case (Cons kv todo)
  obtain k0 v0 where kv: "kv = (k0, v0)" by (cases kv)
  from Cons.prems(1) have k0: "k0 \<notin> fst ` set pre" by (auto simp: kv)
  show ?case
  proof (cases "derive_field config k0 (pre @ (k0, v0) # todo)")
    case (Inl e')
    then show ?thesis by (simp add: kv)
  next
    case (Inr d')
    from derive_field_Inr[OF k0 Inr] obtain v' c where
      d': "d' = pre @ (k0, v') # todo" and c: "py_int v0 = Inr c" by blast
    from c assms(3) Cons.prems(2) have mem: "(k, v) \<in> set todo" by (auto simp: kv)
    have 1: "distinct (map fst ((pre @ [(k0, v')]) @ todo))"
      using Cons.prems(1) by (simp add: kv)
    from Cons.IH[OF 1 mem] Inr show ?thesis by (simp add: kv d')
  qed
qed

lemma frequency_derivation_no_wt:
  assumes "m \<noteq> []" and "dict_get m wt_key = None"
  shows "\<exists>e. frequency_derivation config m = Inl e"
proof -
  obtain k v rest where m: "m = (k, v) # rest" using assms(1) by (cases m) auto
  have k: "k \<noteq> wt_key" using assms(2) by (auto simp: m dict_get_def split: if_splits)
  obtain e where e: "variant_frequency ([] @ (k, v) # rest) v = Inl e"
    using variant_frequency_no_wt[of "[] @ (k, v) # rest" v] assms(2) by (auto simp: m)
  have "derive_field config k ([] @ (k, v) # rest) = Inl e"
    using k e by (subst derive_field_at) simp_all
  then show ?thesis by (simp add: frequency_derivation_def m)
qed



section \<open>MSH2: the claims\<close>

lemma dict_get_fold_store_raw:
  "dict_get (fold store_raw kvs d) key
     = (case map_of (rev kvs) key of Some v \<Rightarrow> Some (PStr v) | None \<Rightarrow> dict_get d key)"
proof (induction kvs arbitrary: d)
  case Nil
  then show ?case by simp
next
  case (Cons kv kvs)
  obtain k v where kv: "kv = (k, v)" by (cases kv)
  have "dict_get (fold store_raw (kv # kvs) d) key
      = (case map_of (rev kvs) key of Some v \<Rightarrow> Some (PStr v)
         | None \<Rightarrow> dict_get (store_raw kv d) key)"
    by (simp add: Cons.IH)
  also have "\<dots> = (case map_of (rev (kv # kvs)) key of Some v \<Rightarrow> Some (PStr v)
      | None \<Rightarrow> dict_get d key)"
    by (auto simp: kv store_raw_def dict_get_dict_set map_add_def split: option.splits)
  finally show ?case .
qed





lemma dict_get_extracted:
  "dict_get (fold store_raw kvs []) key = map_option PStr (map_of (rev kvs) key)"
proof -
  have "dict_get ([] :: pydict) key = None" by (simp add: dict_get_def)
  then show ?thesis by (simp add: dict_get_fold_store_raw split: option.splits)
qed

text \<open>
  C3. What the parser does by the number of lines. Fewer than three lines give the empty
  record and no error. From four lines on the columns 2 to 6 of the third and the fourth
  line are extracted and zipped (of two equal headers the later value stays). With exactly
  three lines the guard \<^verbatim>\<open>len(lines) < 3\<close> lets the input pass and \<^verbatim>\<open>lines[3]\<close> raises
  \<^verbatim>\<open>IndexError\<close>: the guard is one line short of what the next statements read.
\<close>

theorem msh2_line_guard:
  "(length (splitlines f) < 3 \<longrightarrow> msh2_parse_file f config = Inr []) \<and>
   (length (splitlines f) = 3 \<longrightarrow> msh2_parse_file f config = Inl IndexError) \<and>
   (4 \<le> length (splitlines f) \<longrightarrow>
      (\<exists>parsed_data. extract_record (splitlines f) = Inr parsed_data \<and>
         (\<forall>key. dict_get parsed_data key =
            map_option PStr
              (map_of (rev (zip (slice_1_6 (split_on (CHR '' '') (strip (splitlines f ! 2))))
                                (slice_1_6 (split_on (CHR '' '') (strip (splitlines f ! 3))))))
                 key))))"
proof -
  have short: "msh2_parse_file f config = Inr []" if "length (splitlines f) < 3"
    using that by (simp add: msh2_parse_file_def Let_def)
  have three: "msh2_parse_file f config = Inl IndexError" if "length (splitlines f) = 3"
    using that by (simp add: msh2_parse_file_def Let_def extract_record_def list_index_def)
  have four: "\<exists>parsed_data. extract_record (splitlines f) = Inr parsed_data \<and>
         (\<forall>key. dict_get parsed_data key =
            map_option PStr
              (map_of (rev (zip (slice_1_6 (split_on (CHR '' '') (strip (splitlines f ! 2))))
                                (slice_1_6 (split_on (CHR '' '') (strip (splitlines f ! 3))))))
                 key))" if "4 \<le> length (splitlines f)"
    using that
    by (simp add: extract_record_def list_index_def Let_def dict_get_extracted)
  from short three four show ?thesis by blast
qed

text \<open>
  A report that ends after its header line has three lines and raises \<^verbatim>\<open>IndexError\<close>.
\<close>

theorem msh2_line_guard_witness:
  "length (splitlines msh2_three_lines) = 3 \<and>
   msh2_parse_file msh2_three_lines default_config = Inl IndexError"
proof -
  have h: "length (splitlines msh2_three_lines) = 3" by code_simp
  with msh2_line_guard[of msh2_three_lines default_config] show ?thesis by blast
qed

text \<open>
  C4. Take an extracted record whose values all read as integers, with a wild-type count
  of zero and a variant count of zero, and a configuration whose threshold is a float. Then
  the derivation, and with it the parser, raises \<^verbatim>\<open>ZeroDivisionError\<close>: the variants before
  the first zero count are rewritten without an error, and nothing guards the division.
\<close>

theorem msh2_zero_counts_raise:
  assumes "extract_record (splitlines f) = Inr parsed_data"
      and "\<forall>(key, value) \<in> set parsed_data. \<exists>c. py_int value = Inr c"
      and "dict_get parsed_data wt_key = Some wt" and "py_int wt = Inr 0"
      and "(variant, counts) \<in> set parsed_data" and "variant \<noteq> wt_key"
      and "py_int counts = Inr 0"
      and "threshold_of config = Inr threshold"
  shows "frequency_derivation config parsed_data = Inl ZeroDivisionError \<and>
     msh2_parse_file f config = Inl ZeroDivisionError"
proof -
  from extract_record_Inr[OF assms(1)] have dist: "distinct (map fst parsed_data)" by simp
  have z: "\<exists>(k, v) \<in> set parsed_data. k \<noteq> wt_key \<and> py_int v = Inr 0"
    using assms(5-7) by blast
  have "frequency_derivation config parsed_data = Inl ZeroDivisionError"
    using frequency_loop_zero[of "[]" parsed_data config threshold] dist assms(2-4,8) z
    by (simp add: frequency_derivation_def)
  with msh2_parse_file_extracted[OF assms(1), of config] show ?thesis by simp
qed

text \<open>
  The report of a sample without reads at the hotspot raises \<^verbatim>\<open>ZeroDivisionError\<close>.
\<close>

theorem msh2_zero_counts_raise_witness:
  "extract_record (splitlines msh2_zero_report) = Inr msh2_zero_parsed \<and>
   dict_get msh2_zero_parsed wt_key = Some (PStr ''0'') \<and>
   (''MSH2_c.942+3A>T'', PStr ''0'') \<in> set msh2_zero_parsed \<and>
   py_int (PStr ''0'') = Inr 0 \<and>
   msh2_parse_file msh2_zero_report default_config = Inl ZeroDivisionError"
proof -
  have h1: "extract_record (splitlines msh2_zero_report) = Inr msh2_zero_parsed" by code_simp
  have z: "py_int (PStr ''0'') = Inr 0" by code_simp
  have h2: "\<forall>(key, value) \<in> set msh2_zero_parsed. \<exists>c. py_int value = Inr c"
    using z by (simp add: msh2_zero_parsed_def)
  have h3: "dict_get msh2_zero_parsed wt_key = Some (PStr ''0'')" by code_simp
  have h5: "(''MSH2_c.942+3A>T'', PStr ''0'') \<in> set msh2_zero_parsed"
    by (simp add: msh2_zero_parsed_def)
  have h6: "''MSH2_c.942+3A>T'' \<noteq> wt_key" by (simp add: wt_key_def)
  have h8: "threshold_of default_config = Inr (Finite 28)" by code_simp
  from msh2_zero_counts_raise[OF h1 h2 h3 z h5 h6 z h8] h1 h3 h5 z show ?thesis by blast
qed

text \<open>
  C5, as amended. For an input of at least three lines, the parser ends in an error
  whenever the extracted record is not empty and lacks the wild-type key, or holds a value
  that does not read as an integer (with exactly three lines nothing is extracted and the
  parser ends in an error as well). The parser returns the error to its caller: no branch
  of \<^verbatim>\<open>parse_file\<close> turns an error into a record.
\<close>

theorem msh2_hard_errors:
  assumes "3 \<le> length (splitlines f)"
      and "\<forall>parsed_data. extract_record (splitlines f) = Inr parsed_data \<longrightarrow>
             (parsed_data \<noteq> [] \<and> dict_get parsed_data wt_key = None) \<or>
             (\<exists>(key, value) \<in> set parsed_data. \<exists>e. py_int value = Inl e)"
  shows "\<exists>e. msh2_parse_file f config = Inl e"
proof (cases "extract_record (splitlines f)")
  case (Inl e)
  then show ?thesis using assms(1) by (simp add: msh2_parse_file_def Let_def)
next
  case (Inr parsed_data)
  from extract_record_Inr[OF Inr] have dist: "distinct (map fst parsed_data)" by simp
  from assms(2) Inr consider
      "parsed_data \<noteq> []" "dict_get parsed_data wt_key = None"
    | key "value" e where "(key, value) \<in> set parsed_data" "py_int value = Inl e"
    by auto
  then have "\<exists>e. frequency_derivation config parsed_data = Inl e"
  proof cases
    case 1
    then show ?thesis by (rule frequency_derivation_no_wt)
  next
    case 2
    from frequency_loop_bad_value[of "[]" parsed_data key "value" e config] dist 2
    show ?thesis by (simp add: frequency_derivation_def)
  qed
  with msh2_parse_file_extracted[OF Inr, of config] show ?thesis by simp
qed

text \<open>
  A report with the count \<^verbatim>\<open>n/a\<close> ends in \<^verbatim>\<open>ValueError\<close>.
\<close>

theorem msh2_hard_errors_witness:
  "3 \<le> length (splitlines msh2_bad_report) \<and>
   extract_record (splitlines msh2_bad_report) = Inr msh2_bad_parsed \<and>
   (''MSH2_c.942+3A>T'', PStr ''n/a'') \<in> set msh2_bad_parsed \<and>
   py_int (PStr ''n/a'') = Inl ValueError \<and>
   msh2_parse_file msh2_bad_report default_config = Inl ValueError"
proof -
  have h1: "3 \<le> length (splitlines msh2_bad_report)" by code_simp
  have x: "extract_record (splitlines msh2_bad_report) = Inr msh2_bad_parsed" by code_simp
  have m: "(''MSH2_c.942+3A>T'', PStr ''n/a'') \<in> set msh2_bad_parsed"
    by (simp add: msh2_bad_parsed_def)
  have b: "py_int (PStr ''n/a'') = Inl ValueError" by code_simp
  have h2: "\<forall>parsed_data. extract_record (splitlines msh2_bad_report) = Inr parsed_data \<longrightarrow>
             (parsed_data \<noteq> [] \<and> dict_get parsed_data wt_key = None) \<or>
             (\<exists>(key, value) \<in> set parsed_data. \<exists>e. py_int value = Inl e)"
  proof (intro allI impI disjI2)
    fix parsed_data
    assume "extract_record (splitlines msh2_bad_report) = Inr parsed_data"
    with x have "parsed_data = msh2_bad_parsed" by simp
    with m b show "\<exists>(key, value) \<in> set parsed_data. \<exists>e. py_int value = Inl e" by blast
  qed
  from msh2_hard_errors[OF h1 h2, of default_config] obtain e where
    e: "msh2_parse_file msh2_bad_report default_config = Inl e" by blast
  have "msh2_parse_file msh2_bad_report default_config = Inl ValueError" by code_simp
  with e h1 x m b show ?thesis by blast
qed

text \<open>
  C5 as stated fails where the table has the sample column only: the input has four lines,
  the extracted record is empty, so the wild-type key is absent from it, and the parser
  returns the empty record without an error. The loop over the fields, the only place that
  reads the wild-type key, has nothing to visit.
\<close>

theorem msh2_missing_wild_type_returns:
  "3 \<le> length (splitlines msh2_no_columns) \<and>
   extract_record (splitlines msh2_no_columns) = Inr [] \<and>
   dict_get ([] :: pydict) wt_key = None \<and>
   msh2_parse_file msh2_no_columns default_config = Inr []"
  by code_simp



section \<open>Sex prediction: properties of the parser\<close>

lemma dict_get_fold_store_coerced:
  "dict_get (fold store_coerced kvs d) key
     = (case map_of (rev kvs) key of Some v \<Rightarrow> Some (coerce_value v) | None \<Rightarrow> dict_get d key)"
proof (induction kvs arbitrary: d)
  case Nil
  then show ?case by simp
next
  case (Cons kv kvs)
  obtain k v where kv: "kv = (k, v)" by (cases kv)
  have "dict_get (fold store_coerced (kv # kvs) d) key
      = (case map_of (rev kvs) key of Some v \<Rightarrow> Some (coerce_value v)
         | None \<Rightarrow> dict_get (store_coerced kv d) key)"
    by (simp add: Cons.IH)
  also have "\<dots> = (case map_of (rev (kv # kvs)) key of Some v \<Rightarrow> Some (coerce_value v)
      | None \<Rightarrow> dict_get d key)"
    by (auto simp: kv store_coerced_def dict_get_dict_set map_add_def split: option.splits)
  finally show ?case .
qed

lemma keys_fold_store_coerced:
  assumes "distinct (map fst d @ map fst kvs)"
  shows "map fst (fold store_coerced kvs d) = map fst d @ map fst kvs"
  using assms
proof (induction kvs arbitrary: d)
  case Nil
  then show ?case by simp
next
  case (Cons kv kvs)
  have new: "fst kv \<notin> fst ` set d" using Cons.prems by auto
  have k: "map fst (store_coerced kv d) = map fst d @ [fst kv]"
    by (simp add: store_coerced_def keys_dict_set_new[OF new])
  have "distinct (map fst (store_coerced kv d) @ map fst kvs)"
    using Cons.prems by (simp add: k)
  from Cons.IH[OF this] show ?case by (simp add: k)
qed

lemma gender_parse_file_row:
  assumes "2 \<le> length (splitlines f)"
      and "values = slice_1_6 (split_on (CHR 0x09) (strip (splitlines f ! 1)))"
  shows "gender_parse_file f =
     (if values = [] then Inl IndexError
      else Inr (fold store_coerced
             (zip (rename_headers (slice_1_6 (split_on (CHR 0x09) (strip (splitlines f ! 0)))))
                  (canonical_gender (hd values) # tl values)) []))"
proof (cases "values")
  case Nil
  then show ?thesis
    using assms by (simp add: gender_parse_file_def Let_def list_index_def)
next
  case (Cons v vs)
  then show ?thesis
    using assms by (simp add: gender_parse_file_def Let_def list_index_def)
qed

lemma slice_empty_iff: "slice_1_6 xs = [] \<longleftrightarrow> length xs < 2"
  by (cases xs) (auto simp: slice_1_6_def)

text \<open>
  C10. The parser is not total on inputs of two or more lines: when the second line,
  stripped, has fewer than two tab-separated fields, no value is left after the first
  column is cut, and reading \<^verbatim>\<open>values[0]\<close> raises \<^verbatim>\<open>IndexError\<close> before any value is
  coerced. With two or more fields in the data row the parser returns a record, so a
  successful parse needs at least two columns there.
\<close>

theorem gender_parse_file_short_row:
  assumes "2 \<le> length (splitlines f)"
  shows "(length (split_on (CHR 0x09) (strip (splitlines f ! 1))) < 2 \<longrightarrow>
            gender_parse_file f = Inl IndexError) \<and>
         (2 \<le> length (split_on (CHR 0x09) (strip (splitlines f ! 1))) \<longrightarrow>
            (\<exists>parsed_data. gender_parse_file f = Inr parsed_data))"
  using gender_parse_file_row[OF assms refl] slice_empty_iff[of "split_on (CHR 0x09) (strip (splitlines f ! 1))"]
  by auto

text \<open>
  A report whose data row holds the sample name only raises \<^verbatim>\<open>IndexError\<close>, and so does
  one whose data row is empty.
\<close>

theorem gender_parse_file_short_row_witness:
  "2 \<le> length (splitlines gender_short_report) \<and>
   length (split_on (CHR 0x09) (strip (splitlines gender_short_report ! 1))) = 1 \<and>
   gender_parse_file gender_short_report = Inl IndexError \<and>
   splitlines gender_blank_row_report = [''s_name'' @ [CHR 0x09] @ ''gender'', []] \<and>
   gender_parse_file gender_blank_row_report = Inl IndexError"
proof -
  have h: "2 \<le> length (splitlines gender_short_report)" by code_simp
  have n: "length (split_on (CHR 0x09) (strip (splitlines gender_short_report ! 1))) = 1"
    by code_simp
  have b: "splitlines gender_blank_row_report = [''s_name'' @ [CHR 0x09] @ ''gender'', []]"
    by code_simp
  then have hb: "2 \<le> length (splitlines gender_blank_row_report)" by simp
  have nb: "length (split_on (CHR 0x09) (strip (splitlines gender_blank_row_report ! 1))) = 1"
    by code_simp
  from gender_parse_file_short_row[OF h] n
  have "gender_parse_file gender_short_report = Inl IndexError" by simp
  moreover from gender_parse_file_short_row[OF hb] nb
  have "gender_parse_file gender_blank_row_report = Inl IndexError" by simp
  ultimately show ?thesis using h n b by simp
qed

text \<open>
  C8. For a report of two or more lines whose data row has at least two fields (the header
  line needs no condition), the parser returns a record and raises nothing. The first
  value kept is replaced by \<^verbatim>\<open>M\<close> when it is \<^verbatim>\<open>male\<close> in any case and by \<^verbatim>\<open>F\<close> when it is
  \<^verbatim>\<open>female\<close> in any case, and is left alone otherwise. Each header, after the renaming, is
  paired with its value (of two equal headers the later pair stays), and the record holds
  under the header the float (the double nearest to the literal, or an infinity) when the
  value reads as one that is a number, the text
  \<^verbatim>\<open>N/A\<close> when it reads as not-a-number, and the value itself when it does not read as a
  float.
\<close>

theorem gender_parse_file_coercion:
  assumes "2 \<le> length (splitlines f)"
      and "headers = slice_1_6 (split_on (CHR 0x09) (strip (splitlines f ! 0)))"
      and "values = slice_1_6 (split_on (CHR 0x09) (strip (splitlines f ! 1)))"
      and "2 \<le> length (split_on (CHR 0x09) (strip (splitlines f ! 1)))"
      and "first = (if lower (hd values) = ''male'' then ''M''
                    else if lower (hd values) = ''female'' then ''F'' else hd values)"
  shows "\<exists>parsed_data.
      gender_parse_file f = Inr parsed_data \<and>
      (\<forall>key. dict_get parsed_data key =
         (case map_of (rev (zip (rename_headers headers) (first # tl values))) key of
            None \<Rightarrow> None
          | Some v \<Rightarrow>
              (case py_float v of
                 None \<Rightarrow> Some (PStr v)
               | Some x \<Rightarrow> if x = NaN then Some (PStr ''N/A'') else Some (PFloat x))))"
proof -
  have ne: "values \<noteq> []" using assms(3,4) slice_empty_iff[of "split_on (CHR 0x09) (strip (splitlines f ! 1))"] by simp
  have first: "first = canonical_gender (hd values)"
    by (simp add: assms(5) canonical_gender_def)
  have e: "dict_get ([] :: pydict) key = None" for key by (simp add: dict_get_def)
  have "gender_parse_file f =
      Inr (fold store_coerced (zip (rename_headers headers) (first # tl values)) [])"
    using gender_parse_file_row[OF assms(1,3)] ne by (simp add: assms(2) first)
  then show ?thesis
    by (simp add: dict_get_fold_store_coerced e coerce_value_def isnan_def split: option.splits)
qed

text \<open>
  The example report: \<^verbatim>\<open>Male\<close> becomes \<^verbatim>\<open>M\<close>, \<^verbatim>\<open>0.95\<close> a float, \<^verbatim>\<open>nan\<close> the text \<^verbatim>\<open>N/A\<close>, and
  \<^verbatim>\<open>n/a\<close> stays as it is.
\<close>

theorem gender_parse_file_coercion_witness:
  "2 \<le> length (splitlines gender_report) \<and>
   slice_1_6 (split_on (CHR 0x09) (strip (splitlines gender_report ! 1)))
     = [''Male'', ''0.95'', ''nan'', ''n/a'', ''12''] \<and>
   lower ''Male'' = ''male'' \<and>
   py_float ''0.95'' = Some (Finite (4278419646001971 / 4503599627370496)) \<and>
   py_float ''nan'' = Some NaN \<and>
   py_float ''n/a'' = None \<and>
   nearest_double (19 / 20) = Finite (4278419646001971 / 4503599627370496) \<and>
   (\<exists>parsed_data. gender_parse_file gender_report = Inr parsed_data \<and>
      dict_get parsed_data ''gender_xy'' = Some (PStr ''M'') \<and>
      dict_get parsed_data ''other''
        = Some (PFloat (Finite (4278419646001971 / 4503599627370496))) \<and>
      dict_get parsed_data ''other2'' = Some (PStr ''N/A'') \<and>
      dict_get parsed_data ''other3'' = Some (PStr ''n/a''))"
proof -
  have h1: "2 \<le> length (splitlines gender_report)" by code_simp
  have hs: "rename_headers (slice_1_6 (split_on (CHR 0x09) (strip (splitlines gender_report ! 0))))
      = [''gender_xy'', ''other'', ''other2'', ''other3'', ''other4'']" by code_simp
  have vs: "slice_1_6 (split_on (CHR 0x09) (strip (splitlines gender_report ! 1)))
     = [''Male'', ''0.95'', ''nan'', ''n/a'', ''12'']" by code_simp
  have h4: "2 \<le> length (split_on (CHR 0x09) (strip (splitlines gender_report ! 1)))"
    by code_simp
  have l: "lower ''Male'' = ''male''" by code_simp
  have p: "py_float ''M'' = None"
    "py_float ''0.95'' = Some (Finite (4278419646001971 / 4503599627370496))"
    "py_float ''nan'' = Some NaN" "py_float ''n/a'' = None"
    by code_simp+
  from gender_parse_file_coercion[OF h1 refl vs[symmetric] h4 refl]
  obtain parsed_data where
    d: "gender_parse_file gender_report = Inr parsed_data"
       "\<forall>key. dict_get parsed_data key =
         (case map_of (rev (zip
              (rename_headers
                (slice_1_6 (split_on (CHR 0x09) (strip (splitlines gender_report ! 0)))))
              ((if lower (hd [''Male'', ''0.95'', ''nan'', ''n/a'', ''12'']) = ''male'' then ''M''
                else if lower (hd [''Male'', ''0.95'', ''nan'', ''n/a'', ''12'']) = ''female''
                then ''F''
                else hd [''Male'', ''0.95'', ''nan'', ''n/a'', ''12''])
               # tl [''Male'', ''0.95'', ''nan'', ''n/a'', ''12'']))) key of
            None \<Rightarrow> None
          | Some v \<Rightarrow>
              (case py_float v of
                 None \<Rightarrow> Some (PStr v)
               | Some x \<Rightarrow> if x = NaN then Some (PStr ''N/A'') else Some (PFloat x)))"
    by blast
  have "dict_get parsed_data ''gender_xy'' = Some (PStr ''M'')"
    "dict_get parsed_data ''other''
       = Some (PFloat (Finite (4278419646001971 / 4503599627370496)))"
    "dict_get parsed_data ''other2'' = Some (PStr ''N/A'')"
    "dict_get parsed_data ''other3'' = Some (PStr ''n/a'')"
    by (simp_all add: d(2) hs l p)
  moreover have "nearest_double (19 / 20) = Finite (4278419646001971 / 4503599627370496)"
    by code_simp
  ultimately show ?thesis using d(1) h1 vs l p by blast
qed

lemma rename_headers_unfold:
  "rename_headers headers =
     rename_header (''coverage_sry'', ''gender_sry'')
       (rename_header (''het_fraction'', ''gender_hetx'')
         (rename_header (''reads_chry'', ''gender_xy'') headers))"
  by (simp add: rename_headers_def param_map_def)

lemma rename_header_Cons:
  "rename_header (col, key) (h # t) = (if col = h \<or> col \<in> set t then key # t else h # t)"
  by (auto simp: rename_header_def)

lemma rename_header_Nil: "rename_header p [] = []"
  by (simp add: rename_header_def)

lemma keys_zip: "length ys \<le> length xs \<Longrightarrow> map fst (zip xs ys) = take (length ys) xs"
  by (simp add: map_fst_zip_take min_def)

text \<open>
  C9. When one of the column names \<^verbatim>\<open>reads_chry\<close>, \<^verbatim>\<open>het_fraction\<close> and \<^verbatim>\<open>coverage_sry\<close> is
  anywhere among the headers kept, the renaming puts the internal key of a name that is
  present at position 0 and leaves every other position as it was; it does not look for
  the position of the name. With one of the three names present, the key is the one of
  that name: \<^verbatim>\<open>gender_xy\<close>, \<^verbatim>\<open>gender_hetx\<close> or \<^verbatim>\<open>gender_sry\<close>. With none present the headers
  stay. On the header of the specification's example the headers kept become
  \<^verbatim>\<open>gender_xy\<close>, \<^verbatim>\<open>other\<close>, \<^verbatim>\<open>other2\<close>, \<^verbatim>\<open>other3\<close>, \<^verbatim>\<open>other4\<close>, and every report with this header
  and a data row of at least two fields is parsed without an error to a record whose keys
  are the first of these, as many as the row has values.
\<close>

theorem rename_headers_first_position:
  "((''reads_chry'' \<in> set headers \<or> ''het_fraction'' \<in> set headers
       \<or> ''coverage_sry'' \<in> set headers) \<longrightarrow>
      (\<exists>col key. (col, key) \<in> set param_map \<and> col \<in> set headers \<and>
         rename_headers headers = key # tl headers)) \<and>
   (''reads_chry'' \<in> set headers \<and> ''het_fraction'' \<notin> set headers
       \<and> ''coverage_sry'' \<notin> set headers \<longrightarrow>
      rename_headers headers = ''gender_xy'' # tl headers) \<and>
   (''reads_chry'' \<notin> set headers \<and> ''het_fraction'' \<in> set headers
       \<and> ''coverage_sry'' \<notin> set headers \<longrightarrow>
      rename_headers headers = ''gender_hetx'' # tl headers) \<and>
   (''reads_chry'' \<notin> set headers \<and> ''het_fraction'' \<notin> set headers
       \<and> ''coverage_sry'' \<in> set headers \<longrightarrow>
      rename_headers headers = ''gender_sry'' # tl headers) \<and>
   (''reads_chry'' \<notin> set headers \<and> ''het_fraction'' \<notin> set headers
       \<and> ''coverage_sry'' \<notin> set headers \<longrightarrow>
      rename_headers headers = headers) \<and>
   rename_headers
       (slice_1_6 [''s_name'', ''reads_chry'', ''other'', ''other2'', ''other3'', ''other4''])
     = [''gender_xy'', ''other'', ''other2'', ''other3'', ''other4''] \<and>
   (2 \<le> length (splitlines f) \<and>
    split_on (CHR 0x09) (strip (splitlines f ! 0))
      = [''s_name'', ''reads_chry'', ''other'', ''other2'', ''other3'', ''other4''] \<and>
    2 \<le> length (split_on (CHR 0x09) (strip (splitlines f ! 1))) \<longrightarrow>
      (\<exists>parsed_data. gender_parse_file f = Inr parsed_data \<and>
         map fst parsed_data =
           take (length (slice_1_6 (split_on (CHR 0x09) (strip (splitlines f ! 1)))))
             [''gender_xy'', ''other'', ''other2'', ''other3'', ''other4'']))"
proof -
  have any: "\<exists>col key. (col, key) \<in> set param_map \<and> col \<in> set headers \<and>
         rename_headers headers = key # tl headers"
    if "''reads_chry'' \<in> set headers \<or> ''het_fraction'' \<in> set headers
       \<or> ''coverage_sry'' \<in> set headers"
  proof (cases headers)
    case Nil
    with that show ?thesis by simp
  next
    case (Cons h t)
    with that show ?thesis
      by (auto simp: rename_headers_unfold rename_header_Cons param_map_def)
  qed
  have single: "rename_headers headers =
      (if ''coverage_sry'' \<in> set headers then ''gender_sry'' # tl headers
       else if ''het_fraction'' \<in> set headers then ''gender_hetx'' # tl headers
       else if ''reads_chry'' \<in> set headers then ''gender_xy'' # tl headers
       else headers)"
    if "(''reads_chry'' \<notin> set headers \<and> ''het_fraction'' \<notin> set headers)
        \<or> (''reads_chry'' \<notin> set headers \<and> ''coverage_sry'' \<notin> set headers)
        \<or> (''het_fraction'' \<notin> set headers \<and> ''coverage_sry'' \<notin> set headers)"
  proof (cases headers)
    case Nil
    then show ?thesis by (simp add: rename_headers_unfold rename_header_Nil)
  next
    case (Cons h t)
    with that show ?thesis
      by (auto simp: rename_headers_unfold rename_header_Cons)
  qed
  have ex: "rename_headers
       (slice_1_6 [''s_name'', ''reads_chry'', ''other'', ''other2'', ''other3'', ''other4''])
     = [''gender_xy'', ''other'', ''other2'', ''other3'', ''other4'']"
    by code_simp
  have run: "\<exists>parsed_data. gender_parse_file f = Inr parsed_data \<and>
         map fst parsed_data =
           take (length (slice_1_6 (split_on (CHR 0x09) (strip (splitlines f ! 1)))))
             [''gender_xy'', ''other'', ''other2'', ''other3'', ''other4'']"
    if len: "2 \<le> length (splitlines f)"
      and hd: "split_on (CHR 0x09) (strip (splitlines f ! 0))
        = [''s_name'', ''reads_chry'', ''other'', ''other2'', ''other3'', ''other4'']"
      and row: "2 \<le> length (split_on (CHR 0x09) (strip (splitlines f ! 1)))"
  proof -
    let ?vals = "slice_1_6 (split_on (CHR 0x09) (strip (splitlines f ! 1)))"
    let ?keys = "[''gender_xy'', ''other'', ''other2'', ''other3'', ''other4'']"
    let ?row = "canonical_gender (hd ?vals) # tl ?vals"
    have ne: "?vals \<noteq> []"
      using row slice_empty_iff[of "split_on (CHR 0x09) (strip (splitlines f ! 1))"] by simp
    then have n: "length ?row = length ?vals" by (cases ?vals) simp_all
    have le: "length ?vals \<le> 5" by (simp add: slice_1_6_def)
    have p: "gender_parse_file f = Inr (fold store_coerced (zip ?keys ?row) [])"
      using gender_parse_file_row[OF len refl] ne ex by (simp add: hd)
    have "length ?row \<le> length ?keys" using n le by simp
    from keys_zip[OF this] have z: "map fst (zip ?keys ?row) = take (length ?vals) ?keys"
      by (simp only: n)
    have "distinct (map fst (zip ?keys ?row))"
      unfolding z by (rule distinct_take) simp
    then have "map fst (fold store_coerced (zip ?keys ?row) []) = map fst (zip ?keys ?row)"
      using keys_fold_store_coerced[of "[]" "zip ?keys ?row"] by simp
    with p z show ?thesis by simp
  qed
  from any single ex run show ?thesis by (simp add: tl_def)
qed

text \<open>
  The header of a chromosome-ratio report: \<^verbatim>\<open>reads_chry\<close> stands at position 1, and position
  0, the column of the call, is renamed. The example report is parsed without an error.
\<close>

theorem rename_headers_first_position_witness:
  "''reads_chry'' \<in> set xy_headers \<and>
   rename_headers xy_headers = [''gender_xy'', ''reads_chry'', ''reads_chrx'', ''ratio_chry_chrx''] \<and>
   2 \<le> length (splitlines gender_report) \<and>
   (\<exists>parsed_data. gender_parse_file gender_report = Inr parsed_data \<and>
      map fst parsed_data = [''gender_xy'', ''other'', ''other2'', ''other3'', ''other4''])"
proof -
  have h: "''reads_chry'' \<in> set xy_headers \<and> ''het_fraction'' \<notin> set xy_headers
      \<and> ''coverage_sry'' \<notin> set xy_headers"
    by (simp add: xy_headers_def)
  have t: "tl xy_headers = [''reads_chry'', ''reads_chrx'', ''ratio_chry_chrx'']"
    by (simp add: xy_headers_def)
  have l: "2 \<le> length (splitlines gender_report)" by code_simp
  have hd: "split_on (CHR 0x09) (strip (splitlines gender_report ! 0))
      = [''s_name'', ''reads_chry'', ''other'', ''other2'', ''other3'', ''other4'']"
    by code_simp
  have row: "2 \<le> length (split_on (CHR 0x09) (strip (splitlines gender_report ! 1)))"
    by code_simp
  have n: "length (slice_1_6 (split_on (CHR 0x09) (strip (splitlines gender_report ! 1)))) = 5"
    by code_simp
  from rename_headers_first_position[of xy_headers gender_report] h
  have r: "rename_headers xy_headers = ''gender_xy'' # tl xy_headers" by blast
  from rename_headers_first_position[of xy_headers gender_report] l hd row
  obtain parsed_data where
    "gender_parse_file gender_report = Inr parsed_data"
    "map fst parsed_data =
       take (length (slice_1_6 (split_on (CHR 0x09) (strip (splitlines gender_report ! 1)))))
         [''gender_xy'', ''other'', ''other2'', ''other3'', ''other4'']"
    by blast
  with n r t h l show ?thesis by simp
qed


end
